theory Spec2Isabelle
  imports Complex_Main "HOL-Library.Word" "HOL-Library.Monad_Syntax"
begin

unbundle bit_operations_syntax

section \<open>Data model of program\_statistics.c\<close>

text \<open>
  The enum \<^verbatim>\<open>Type { i, r, j }\<close>. The constructors carry a prefix, since one-letter
  constructor names would capture the variables of every later statement.
\<close>

datatype Type = Type_i | Type_r | Type_j

text \<open>
  The struct \<^verbatim>\<open>Instruction\<close>: two \<^verbatim>\<open>uint64_t\<close> fields and eight \<^verbatim>\<open>int\<close> fields.
  The \<^verbatim>\<open>int\<close> fields only ever hold results of \<^verbatim>\<open>bitsAt\<close>, which are values of a
  32-bit \<^verbatim>\<open>int\<close>; they are kept as the integer they denote.
\<close>

record Instruction =
  addr :: "64 word"
  word :: "64 word"
  op :: int
  rs :: int
  rt :: int
  rd :: int
  shamt :: int
  funct :: int
  imm :: int
  jAddr :: int
  type :: Type

text \<open>
  The struct \<^verbatim>\<open>Stats\<close>: ten \<^verbatim>\<open>int\<close> counters and the table \<^verbatim>\<open>int reg[32][2]\<close>, a list
  of rows, each row a list of two counters (column 0 the reads, column 1 the writes).
  A counter moves by one per statement and the loop runs \<^verbatim>\<open>count\<close> times for an
  \<^verbatim>\<open>int count\<close>, so the counters are kept as the integers they denote.
\<close>

record Stats =
  insts :: int
  rType :: int
  iType :: int
  jType :: int
  fwdTaken :: int
  bkwTaken :: int
  notTaken :: int
  loads :: int
  stores :: int
  arith :: int
  reg :: "int list list"

section \<open>Bit fields\<close>

text \<open>
  The shifts of C on a \<^verbatim>\<open>uint64_t\<close> with an \<^verbatim>\<open>int\<close> count. A count that is negative
  or not below the width has no defined result: the model returns \<open>None\<close> there.
\<close>

definition shl64 :: "64 word \<Rightarrow> int \<Rightarrow> 64 word option" where
  "shl64 x n = (if 0 \<le> n \<and> n < 64 then Some (push_bit (nat n) x) else None)"

definition shr64 :: "64 word \<Rightarrow> int \<Rightarrow> 64 word option" where
  "shr64 x n = (if 0 \<le> n \<and> n < 64 then Some (drop_bit (nat n) x) else None)"

text \<open>
  \<^verbatim>\<open>int bitsAt(uint64_t word, int start, int end)\<close>:
  \<^verbatim>\<open>bitMask = ((1ULL << (end - start + 1)) - 1) << start;\<close>
  \<^verbatim>\<open>return (int) ((word & bitMask) >> start);\<close>
  The subtraction on the mask wraps, as unsigned arithmetic does. The count
  \<^verbatim>\<open>end - start + 1\<close> is computed on \<^verbatim>\<open>int\<close>; whenever it leaves the range of \<^verbatim>\<open>int\<close>
  its exact value is outside \<open>0..63\<close> as well, so the guard of \<open>shl64\<close> covers that case
  too. The conversion to \<^verbatim>\<open>int\<close> keeps the low 32 bits, read in two's complement.
\<close>

definition bitsAt :: "64 word \<Rightarrow> int \<Rightarrow> int \<Rightarrow> int option" where
  "bitsAt w start endb =
     do {
       one \<leftarrow> shl64 1 (endb - start + 1);
       bitMask \<leftarrow> shl64 (one - 1) start;
       v \<leftarrow> shr64 (w AND bitMask) start;
       Some (sint (ucast v :: 32 word))
     }"

section \<open>Classification\<close>

text \<open>\<^verbatim>\<open>Type getOp(int op)\<close>: a switch with the cases 0x00, 0x02 and 0x03 and a default.\<close>

definition getOp :: "int \<Rightarrow> Type" where
  "getOp opc =
     (if opc = 0x00 then Type_r
      else if opc = 0x02 \<or> opc = 0x03 then Type_j
      else Type_i)"

text \<open>\<^verbatim>\<open>void addType(Stats *stats, Type type)\<close>.\<close>

definition addType :: "Stats \<Rightarrow> Type \<Rightarrow> Stats" where
  "addType stats t =
     (case t of
        Type_r \<Rightarrow> stats\<lparr>rType := rType stats + 1\<rparr>
      | Type_i \<Rightarrow> stats\<lparr>iType := iType stats + 1\<rparr>
      | Type_j \<Rightarrow> stats\<lparr>jType := jType stats + 1\<rparr>)"

text \<open>\<^verbatim>\<open>void addToLoad(Stats *stats, int op)\<close>: two groups of cases, no default.\<close>

definition addToLoad :: "Stats \<Rightarrow> int \<Rightarrow> Stats" where
  "addToLoad stats opc =
     (if opc = 0x20 \<or> opc = 0x24 \<or> opc = 0x21 \<or> opc = 0x25 \<or> opc = 0x23
        then stats\<lparr>loads := loads stats + 1\<rparr>
      else if opc = 0x28 \<or> opc = 0x29 \<or> opc = 0x2b
        then stats\<lparr>stores := stores stats + 1\<rparr>
      else stats)"

text \<open>\<^verbatim>\<open>void addArith(Stats *stats, int op, int funct)\<close>.\<close>

definition addArith :: "Stats \<Rightarrow> int \<Rightarrow> int \<Rightarrow> Stats" where
  "addArith stats opc fn =
     (if opc = 0x00 then
        (if fn = 0x20 \<or> fn = 0x21 \<or> fn = 0x22 \<or> fn = 0x23 \<or> fn = 0x18 \<or> fn = 0x19
            \<or> fn = 0x1a \<or> fn = 0x1b \<or> fn = 0x10 \<or> fn = 0x12 \<or> fn = 0x00 \<or> fn = 0x01
           then stats\<lparr>arith := arith stats + 1\<rparr>
         else stats)
      else
        (if opc = 0x08 \<or> opc = 0x09
           then stats\<lparr>arith := arith stats + 1\<rparr>
         else stats))"

section \<open>Register read/write tally\<close>

text \<open>
  One statement \<^verbatim>\<open>stats->reg[n][k]++\<close> or \<^verbatim>\<open>stats->reg[n][k]--\<close> (\<open>d\<close> is 1 or -1).
  An index outside the table is an access outside the array: the model returns \<open>None\<close>.
\<close>

definition reg_add :: "Stats \<Rightarrow> int \<Rightarrow> nat \<Rightarrow> int \<Rightarrow> Stats option" where
  "reg_add stats n k d =
     (if 0 \<le> n \<and> nat n < length (reg stats) \<and> k < length (reg stats ! nat n)
        then Some (stats\<lparr>reg := (reg stats)[nat n := (reg stats ! nat n)[k := reg stats ! nat n ! k + d]]\<rparr>)
      else None)"

text \<open>
  \<^verbatim>\<open>void addReadWrite(Stats *stats, Instruction *in)\<close>, with \<^verbatim>\<open>read = 0, write = 1\<close>.
  The statements are kept in the order of the source; the \<^verbatim>\<open>default\<close> branch of the
  outer switch is the branch taken by the J format.
\<close>

definition addReadWrite :: "Stats \<Rightarrow> Instruction \<Rightarrow> Stats option" where
  "addReadWrite stats ins =
     (let read = 0; write = 1 in
      case type ins of
        Type_r \<Rightarrow>
          do {
            s1 \<leftarrow> reg_add stats (rd ins) write 1;
            s2 \<leftarrow> reg_add s1 (rs ins) read 1;
            s3 \<leftarrow> reg_add s2 (rt ins) read 1;
            if funct ins = 0x08 then
              do {
                s4 \<leftarrow> reg_add s3 (rd ins) write (- 1);
                reg_add s4 (rt ins) read (- 1)
              }
            else if funct ins = 0x00 \<or> funct ins = 0x02 \<or> funct ins = 0x3 then
              reg_add s3 (rs ins) read (- 1)
            else Some s3
          }
      | Type_i \<Rightarrow>
          do {
            s1 \<leftarrow> reg_add stats (rt ins) write 1;
            s2 \<leftarrow> reg_add s1 (rs ins) read 1;
            if op ins = 0xf then
              reg_add s2 (rs ins) read (- 1)
            else if op ins = 0x4 \<or> op ins = 0x5 then
              do {
                s3 \<leftarrow> reg_add s2 (rt ins) write (- 1);
                reg_add s3 (rt ins) read 1
              }
            else if op ins = 0x28 \<or> op ins = 0x29 \<or> op ins = 0x2b \<or> op ins = 0x38 then
              do {
                s3 \<leftarrow> reg_add s2 (rt ins) read 1;
                reg_add s3 (rt ins) write (- 1)
              }
            else Some s2
          }
      | Type_j \<Rightarrow>
          if op ins = 0x3 then
            do {
              s1 \<leftarrow> reg_add stats (rt ins) write (- 1);
              s2 \<leftarrow> reg_add s1 (rs ins) read (- 1);
              reg_add s2 31 write 1
            }
          else Some stats)"

section \<open>Branch outcome\<close>

text \<open>
  \<^verbatim>\<open>void addBranchCount(Stats *stats, long prevAddr, long inAddr, int prevOp)\<close>.
  The two addresses arrive as \<^verbatim>\<open>long\<close>, converted from \<^verbatim>\<open>uint64_t\<close> with the same 64
  bits. \<^verbatim>\<open>long diff = inAddr - prevAddr\<close> is the difference in 64-bit two's complement,
  and the comparisons with 4 and 0 are signed.
\<close>

definition addBranchCount :: "Stats \<Rightarrow> 64 word \<Rightarrow> 64 word \<Rightarrow> int \<Rightarrow> Stats" where
  "addBranchCount stats prevAddr inAddr prevOp =
     (let diff = inAddr - prevAddr in
      if 4 <s diff then stats\<lparr>fwdTaken := fwdTaken stats + 1\<rparr>
      else if diff <s 0 then stats\<lparr>bkwTaken := bkwTaken stats + 1\<rparr>
      else if prevOp = 0x04 \<or> prevOp = 0x05 then stats\<lparr>notTaken := notTaken stats + 1\<rparr>
      else stats)"

section \<open>The statistics pass\<close>

text \<open>
  Lines 181 to 189 of \<^verbatim>\<open>getStat\<close>: the eight calls of \<^verbatim>\<open>bitsAt\<close> on \<^verbatim>\<open>list[i].word\<close> and
  the call of \<^verbatim>\<open>getOp\<close>, each stored in its field of \<^verbatim>\<open>list[i]\<close>.
\<close>

definition getStat_decode :: "Instruction \<Rightarrow> Instruction option" where
  "getStat_decode x =
     do {
       v_op \<leftarrow> bitsAt (word x) 26 31;
       v_rs \<leftarrow> bitsAt (word x) 21 25;
       v_rt \<leftarrow> bitsAt (word x) 16 20;
       v_rd \<leftarrow> bitsAt (word x) 11 15;
       v_shamt \<leftarrow> bitsAt (word x) 6 10;
       v_funct \<leftarrow> bitsAt (word x) 0 5;
       v_imm \<leftarrow> bitsAt (word x) 0 15;
       v_jAddr \<leftarrow> bitsAt (word x) 0 25;
       Some (x\<lparr>op := v_op, rs := v_rs, rt := v_rt, rd := v_rd, shamt := v_shamt,
               funct := v_funct, imm := v_imm, jAddr := v_jAddr, type := getOp v_op\<rparr>)
     }"

text \<open>
  One iteration of the loop of \<^verbatim>\<open>getStat\<close>: decode, count, the four tallies, the branch
  outcome when \<^verbatim>\<open>prev != NULL\<close>; the decoded instruction is the next \<^verbatim>\<open>prev\<close>.
\<close>

definition getStat_body :: "Stats \<Rightarrow> Instruction option \<Rightarrow> Instruction \<Rightarrow> (Stats \<times> Instruction option) option" where
  "getStat_body stats prev x =
     do {
       ins \<leftarrow> getStat_decode x;
       s5 \<leftarrow> addReadWrite
               (addArith
                  (addToLoad
                     (addType (stats\<lparr>insts := insts stats + 1\<rparr>) (type ins))
                     (op ins))
                  (op ins) (funct ins))
               ins;
       Some (case prev of
               None \<Rightarrow> s5
             | Some p \<Rightarrow> addBranchCount s5 (addr p) (addr ins) (op p),
             Some ins)
     }"

fun getStat_loop :: "Stats \<Rightarrow> Instruction option \<Rightarrow> Instruction list \<Rightarrow> (Stats \<times> Instruction option) option" where
  "getStat_loop stats prev [] = Some (stats, prev)"
| "getStat_loop stats prev (x # xs) =
     (case getStat_body stats prev x of
        None \<Rightarrow> None
      | Some (stats', prev') \<Rightarrow> getStat_loop stats' prev' xs)"

text \<open>\<^verbatim>\<open>Stats stats = {0};\<close>\<close>

definition zero_Stats :: Stats where
  "zero_Stats =
     \<lparr>insts = 0, rType = 0, iType = 0, jType = 0, fwdTaken = 0, bkwTaken = 0,
      notTaken = 0, loads = 0, stores = 0, arith = 0, reg = replicate 32 (replicate 2 0)\<rparr>"

text \<open>
  \<^verbatim>\<open>Stats getStat(Instruction *list, int count)\<close>: the loop visits \<^verbatim>\<open>list[0]\<close> to
  \<^verbatim>\<open>list[count - 1]\<close>. A \<^verbatim>\<open>count\<close> beyond the array reads outside it (\<open>None\<close>).
\<close>

definition getStat :: "Instruction list \<Rightarrow> int \<Rightarrow> Stats option" where
  "getStat list count =
     (if count \<le> int (length list)
        then map_option fst (getStat_loop zero_Stats None (take (nat count) list))
      else None)"

section \<open>The report\<close>

text \<open>
  A line of the report: a count, a percentage, or the two counters of a register.
\<close>

datatype line = Count string int | Percent string "real option" | RegLine int int int

text \<open>
  The expression \<^verbatim>\<open>(float) c / stats->insts * 100\<close>. The source has no test of the
  divisor; \<open>None\<close> is the division whose divisor is zero. Elsewhere the model keeps
  the exact quotient, where the program rounds to \<^verbatim>\<open>float\<close>.
\<close>

definition percentage :: "int \<Rightarrow> int \<Rightarrow> real option" where
  "percentage c n = (if n = 0 then None else Some (real_of_int c / real_of_int n * 100))"

text \<open>\<^verbatim>\<open>void printStats(FILE *outFile, Stats *stats)\<close>: the lines in the order written.\<close>

definition printStats :: "Stats \<Rightarrow> line list" where
  "printStats stats =
     [Count ''insts'' (insts stats),
      Count ''r-type'' (rType stats),
      Count ''i-type'' (iType stats),
      Count ''j-type'' (jType stats),
      Percent ''fwd-taken'' (percentage (fwdTaken stats) (insts stats)),
      Percent ''bkw-taken'' (percentage (bkwTaken stats) (insts stats)),
      Percent ''not-taken'' (percentage (notTaken stats) (insts stats)),
      Percent ''loads'' (percentage (loads stats) (insts stats)),
      Percent ''stores'' (percentage (stores stats) (insts stats)),
      Percent ''arith'' (percentage (arith stats) (insts stats))]
     @ map (\<lambda>n. RegLine (int n) (reg stats ! n ! 0) (reg stats ! n ! 1)) [0..<32]"

section \<open>Reading the trace\<close>

text \<open>
  The contents of \<^verbatim>\<open>trace.txt\<close> as its whitespace-separated tokens: a token is a
  hexadecimal number, or starts with a character that \<^verbatim>\<open>%lx\<close> does not match.
\<close>

datatype token = Hex "64 word" | Junk

text \<open>
  The C library call \<^verbatim>\<open>fscanf(inFile, "%lx %lx", &a, &w)\<close>, as ISO C specifies it: the
  return value is \<^verbatim>\<open>EOF\<close> (-1) when the input ends before the first conversion, and
  otherwise the number of items assigned, which is 0 or 1 when a token does not match;
  the token that does not match stays in the stream. The result is the return value,
  the values assigned through the two pointers if any, and the rest of the stream.
\<close>

definition EOF :: int where
  "EOF = - 1"

fun fscanf_lx_lx :: "token list \<Rightarrow> int \<times> 64 word option \<times> 64 word option \<times> token list" where
  "fscanf_lx_lx [] = (EOF, None, None, [])"
| "fscanf_lx_lx (Junk # ts) = (0, None, None, Junk # ts)"
| "fscanf_lx_lx [Hex a] = (1, Some a, None, [])"
| "fscanf_lx_lx (Hex a # Junk # ts) = (1, Some a, None, Junk # ts)"
| "fscanf_lx_lx (Hex a # Hex w # ts) = (2, Some a, Some w, ts)"

text \<open>
  How a run ends: it finishes with a result, it is still running when the fuel of the
  model is used up, or it leaves defined behaviour (a store outside \<^verbatim>\<open>list\<close>, an
  overflow of \<^verbatim>\<open>counter\<close>).
\<close>

datatype 'a outcome = Finished 'a | OutOfFuel | Undefined

text \<open>
  The loop of \<^verbatim>\<open>main\<close>:
  \<^verbatim>\<open>while (fscanf(inFile, "%lx %lx", &list[counter].addr, &list[counter].word) != EOF) counter++;\<close>
  The first argument bounds the number of calls of \<^verbatim>\<open>fscanf\<close>. \<open>list\<close> is the array
  \<^verbatim>\<open>Instruction list[1000]\<close> with whatever it holds before the loop.
\<close>

fun read_loop :: "nat \<Rightarrow> token list \<Rightarrow> Instruction list \<Rightarrow> int \<Rightarrow> (Instruction list \<times> int) outcome" where
  "read_loop 0 ts list counter = OutOfFuel"
| "read_loop (Suc n) ts list counter =
     (case fscanf_lx_lx ts of
        (ret, a, w, ts') \<Rightarrow>
          if (a \<noteq> None \<or> w \<noteq> None) \<and> \<not> (0 \<le> counter \<and> counter < int (length list))
            then Undefined
          else
            let list1 = (case a of None \<Rightarrow> list
                         | Some v \<Rightarrow> list[nat counter := (list ! nat counter)\<lparr>addr := v\<rparr>]);
                list2 = (case w of None \<Rightarrow> list1
                         | Some v \<Rightarrow> list1[nat counter := (list1 ! nat counter)\<lparr>word := v\<rparr>])
            in
              if ret \<noteq> EOF then
                (if counter + 1 > 2147483647 then Undefined
                 else read_loop n ts' list2 (counter + 1))
              else Finished (list2, counter))"

text \<open>
  \<^verbatim>\<open>main\<close> once both files are open: read the trace, compute the statistics, print.
\<close>

definition main :: "nat \<Rightarrow> token list \<Rightarrow> Instruction list \<Rightarrow> line list outcome" where
  "main fuel ts list =
     (case read_loop fuel ts list 0 of
        Finished (list', counter) \<Rightarrow>
          (case getStat list' counter of
             None \<Rightarrow> Undefined
           | Some stats \<Rightarrow> Finished (printStats stats))
      | OutOfFuel \<Rightarrow> OutOfFuel
      | Undefined \<Rightarrow> Undefined)"

section \<open>Auxiliary notions\<close>

text \<open>
  The register table has the shape the declaration \<^verbatim>\<open>int reg[32][2]\<close> gives it: 32
  rows of two counters.
\<close>

definition wf_reg :: "int list list \<Rightarrow> bool" where
  "wf_reg t \<longleftrightarrow> length t = 32 \<and> list_all (\<lambda>row. length row = 2) t"

definition wf_Stats :: "Stats \<Rightarrow> bool" where
  "wf_Stats s \<longleftrightarrow> wf_reg (reg s)"

text \<open>The table after \<open>d\<close> is added to the counter in row \<open>n\<close>, column \<open>k\<close>.\<close>

definition bump_cell :: "int list list \<Rightarrow> nat \<Rightarrow> nat \<Rightarrow> int \<Rightarrow> int list list" where
  "bump_cell t n k d = t[n := (t ! n)[k := t ! n ! k + d]]"

text \<open>The tokens of a trace file that holds the given records and nothing else.\<close>

fun tokens_of :: "(64 word \<times> 64 word) list \<Rightarrow> token list" where
  "tokens_of [] = []"
| "tokens_of ((a, w) # recs) = Hex a # Hex w # tokens_of recs"

section \<open>Properties of the bit-field decoder\<close>

lemma field_word:
  "drop_bit s (w AND push_bit s (push_bit n 1 - 1)) = take_bit n (drop_bit s (w :: 64 word))"
proof -
  have "push_bit n 1 - 1 = (mask n :: 64 word)"
    by (simp add: mask_eq_exp_minus_1)
  then show ?thesis
    by (auto simp: bit_eq_iff bit_simps dest: bit_imp_le_length)
qed

lemma sint_small:
  assumes "n \<le> 31"
  shows "sint (ucast (take_bit n (v :: 64 word)) :: 32 word) = uint (take_bit n v)"
proof -
  have nonneg: "0 \<le> uint (take_bit n v)" by simp
  have "uint (take_bit n v) = take_bit n (uint v)"
    by (rule unsigned_take_bit_eq)
  then have lt: "uint (take_bit n v) < 2 ^ n"
    by simp
  have "(2::int) ^ n \<le> 2 ^ 31"
    using assms by (intro power_increasing) simp_all
  with lt have lt31: "uint (take_bit n v) < 2 ^ 31" by linarith
  have "sint (ucast (take_bit n v) :: 32 word) = signed_take_bit 31 (uint (take_bit n v))"
    by (simp add: signed_ucast_eq)
  also have "\<dots> = uint (take_bit n v)"
  proof (rule signed_take_bit_int_eq_self)
    show "- (2 ^ 31) \<le> uint (take_bit n v)"
      by (rule order_trans [OF _ nonneg]) simp
    show "uint (take_bit n v) < 2 ^ 31"
      by (rule lt31)
  qed
  finally show ?thesis .
qed

lemma bitsAt_field:
  assumes "0 \<le> start" "start \<le> endb" "endb \<le> 63" "endb - start + 1 \<le> 31"
  shows "bitsAt w start endb =
           Some (uint (take_bit (nat (endb - start + 1)) (drop_bit (nat start) w)))"
proof -
  define n where "n = nat (endb - start + 1)"
  define s where "s = nat start"
  have n: "n \<le> 31" using assms by (simp add: n_def)
  have 1: "shl64 1 (endb - start + 1) = Some (push_bit n 1)"
    using assms by (simp add: shl64_def n_def)
  have 2: "shl64 (push_bit n 1 - 1) start = Some (push_bit s (push_bit n 1 - 1))"
    using assms by (simp add: shl64_def s_def)
  have 3: "shr64 (w AND push_bit s (push_bit n 1 - 1)) start = Some (take_bit n (drop_bit s w))"
    using assms by (simp only: field_word [symmetric]) (simp add: shr64_def s_def)
  show ?thesis
    unfolding n_def [symmetric] s_def [symmetric]
    by (simp only: bitsAt_def 1 2 3 bind.bind_lunit sint_small [OF n])
qed

lemma uint_field: "uint (take_bit n (drop_bit s (w :: 64 word))) = uint w div 2 ^ s mod 2 ^ n"
proof -
  have "uint (take_bit n (drop_bit s w)) = take_bit n (drop_bit s (uint w))"
    by (simp add: unsigned_take_bit_eq unsigned_drop_bit_eq bintr_uint)
  then show ?thesis
    by (simp add: take_bit_eq_mod drop_bit_eq_div)
qed

lemma uint_take_bit_bounds:
  "0 \<le> uint (take_bit n (v :: 64 word)) \<and> uint (take_bit n v) < 2 ^ n"
  by (simp add: unsigned_take_bit_eq)

text \<open>
  Claim C2, as the specification states it: for every 64-bit word, \<^verbatim>\<open>bitsAt(word, 0, 63)\<close>
  returns the word exactly. It fails at the word \<open>2^32\<close>: over the range 0..63 the mask
  is built with a shift by 64, which has no defined result, and even over the widest
  range with a defined mask, 0..62, the \<^verbatim>\<open>int\<close> result keeps only the low 32 bits.
\<close>

theorem bitsAt_full_range_counterexample:
  "bitsAt 0x100000000 0 63 \<noteq> Some 0x100000000 \<and> bitsAt 0x100000000 0 62 = Some 0"
  by (simp add: bitsAt_def shl64_def shr64_def)

text \<open>
  Claim C2, amended: for every 64-bit word and every range with
  \<open>0 \<le> start \<le> end \<le> 63\<close> that is at most 31 bits wide, \<^verbatim>\<open>bitsAt\<close> returns exactly the
  value of the bits \<open>start..end\<close>, shifted down to position 0; so a word below \<open>2^31\<close> is
  returned exactly by \<^verbatim>\<open>bitsAt(word, 0, 30)\<close>.
\<close>

theorem bitsAt_range:
  assumes "0 \<le> start" and "start \<le> endb" and "endb \<le> 63" and "endb - start + 1 \<le> 31"
  shows "bitsAt w start endb = Some (uint w div 2 ^ nat start mod 2 ^ nat (endb - start + 1))
         \<and> (uint w < 2 ^ 31 \<longrightarrow> bitsAt w 0 30 = Some (uint w))"
proof -
  have "bitsAt w 0 30 = Some (uint w mod 2 ^ 31)"
    using bitsAt_field [of 0 30 w] uint_field [of 31 0 w] by simp
  moreover have "uint w < 2 ^ 31 \<Longrightarrow> uint w mod 2 ^ 31 = uint w"
    by simp
  ultimately show ?thesis
    using bitsAt_field [OF assms, of w] by (simp only: uint_field) simp
qed

theorem bitsAt_range_witness:
  "(0::int) \<le> 26 \<and> (26::int) \<le> 31 \<and> (31::int) \<le> 63 \<and> (31::int) - 26 + 1 \<le> 31
   \<and> uint (0x0c100000 :: 64 word) < 2 ^ 31
   \<and> bitsAt 0x0c100000 26 31 = Some 3 \<and> bitsAt 0x0c100000 0 30 = Some 0x0c100000"
  using bitsAt_range [of 26 31 "0x0c100000"] by simp

section \<open>Properties of the classification\<close>

text \<open>
  Claim C7: the format classification \<^verbatim>\<open>getOp\<close> is a total partition of the opcodes:
  opcode 0x00 is the R format, opcodes 0x02 and 0x03 are the J format, and every
  other opcode is the I format, so each opcode has exactly one of the three tags.
\<close>

theorem getOp_partition:
  "(getOp opc = Type_r \<longleftrightarrow> opc = 0x00)
   \<and> (getOp opc = Type_j \<longleftrightarrow> opc = 0x02 \<or> opc = 0x03)
   \<and> (getOp opc = Type_i \<longleftrightarrow> opc \<noteq> 0x00 \<and> opc \<noteq> 0x02 \<and> opc \<noteq> 0x03)"
  by (simp add: getOp_def)

text \<open>
  Claim C8: the load/store tally adds one to \<^verbatim>\<open>loads\<close> exactly for the opcodes 0x20,
  0x21, 0x23, 0x24 and 0x25, adds one to \<^verbatim>\<open>stores\<close> exactly for the opcodes 0x28, 0x29
  and 0x2b, and changes nothing for any other opcode.
\<close>

theorem addToLoad_tally:
  "addToLoad s opc =
     s\<lparr>loads := loads s + (if opc \<in> {0x20, 0x21, 0x23, 0x24, 0x25} then 1 else 0),
       stores := stores s + (if opc \<in> {0x28, 0x29, 0x2b} then 1 else 0)\<rparr>"
  by (auto simp: addToLoad_def)

section \<open>Properties of the register tally\<close>

lemma wf_reg_bump [simp]:
  assumes "wf_reg t"
  shows "wf_reg (bump_cell t n k d)"
proof (cases "n < length t")
  case True
  with assms show ?thesis
    by (auto simp: wf_reg_def bump_cell_def list_all_length nth_list_update)
next
  case False
  with assms show ?thesis
    by (simp add: bump_cell_def not_less list_update_beyond)
qed

lemma nth_bump:
  "wf_reg t \<Longrightarrow> n < 32 \<Longrightarrow> k < 2 \<Longrightarrow> m < 32 \<Longrightarrow> c < 2 \<Longrightarrow>
     bump_cell t n k d ! m ! c = t ! m ! c + (if m = n \<and> c = k then d else 0)"
  by (auto simp: wf_reg_def bump_cell_def list_all_length nth_list_update)

lemma reg_add_Some:
  "wf_reg (reg s) \<Longrightarrow> 0 \<le> n \<Longrightarrow> n < 32 \<Longrightarrow> k < 2 \<Longrightarrow>
     reg_add s n k d = Some (s\<lparr>reg := bump_cell (reg s) (nat n) k d\<rparr>)"
  by (simp add: reg_add_def bump_cell_def wf_reg_def list_all_length)

lemma zero_Stats_wf: "wf_reg (reg zero_Stats)"
  by (simp add: zero_Stats_def wf_reg_def list_all_length)

lemma replicate_2_0: "replicate 2 (0::int) = [0, 0]"
  by (simp add: numeral_2_eq_2)

text \<open>The decoding never fails, and its result is the record with the eight fields set.\<close>

lemma decode_total:
  "getStat_decode x =
     Some (x\<lparr>op := uint (take_bit 6 (drop_bit 26 (word x))),
             rs := uint (take_bit 5 (drop_bit 21 (word x))),
             rt := uint (take_bit 5 (drop_bit 16 (word x))),
             rd := uint (take_bit 5 (drop_bit 11 (word x))),
             shamt := uint (take_bit 5 (drop_bit 6 (word x))),
             funct := uint (take_bit 6 (word x)),
             imm := uint (take_bit 16 (word x)),
             jAddr := uint (take_bit 26 (word x)),
             type := getOp (uint (take_bit 6 (drop_bit 26 (word x))))\<rparr>)"
  by (simp add: getStat_decode_def bitsAt_field)

lemma decode_fields:
  assumes "getStat_decode x = Some ins"
  shows "0 \<le> rs ins \<and> rs ins < 32" and "0 \<le> rt ins \<and> rt ins < 32" and "0 \<le> rd ins \<and> rd ins < 32"
    and "0 \<le> op ins \<and> op ins < 64" and "type ins = getOp (op ins)"
    and "addr ins = addr x" and "word ins = word x"
    and "op ins = uint (take_bit 6 (drop_bit 26 (word x)))"
proof -
  have ins: "ins = x\<lparr>op := uint (take_bit 6 (drop_bit 26 (word x))),
             rs := uint (take_bit 5 (drop_bit 21 (word x))),
             rt := uint (take_bit 5 (drop_bit 16 (word x))),
             rd := uint (take_bit 5 (drop_bit 11 (word x))),
             shamt := uint (take_bit 5 (drop_bit 6 (word x))),
             funct := uint (take_bit 6 (word x)),
             imm := uint (take_bit 16 (word x)),
             jAddr := uint (take_bit 26 (word x)),
             type := getOp (uint (take_bit 6 (drop_bit 26 (word x))))\<rparr>"
    using assms by (simp add: decode_total)
  show "0 \<le> rs ins \<and> rs ins < 32"
    using uint_take_bit_bounds [of 5 "drop_bit 21 (word x)"] by (simp add: ins)
  show "0 \<le> rt ins \<and> rt ins < 32"
    using uint_take_bit_bounds [of 5 "drop_bit 16 (word x)"] by (simp add: ins)
  show "0 \<le> rd ins \<and> rd ins < 32"
    using uint_take_bit_bounds [of 5 "drop_bit 11 (word x)"] by (simp add: ins)
  show "0 \<le> op ins \<and> op ins < 64"
    using uint_take_bit_bounds [of 6 "drop_bit 26 (word x)"] by (simp add: ins)
  show "type ins = getOp (op ins)" "addr ins = addr x" "word ins = word x"
    "op ins = uint (take_bit 6 (drop_bit 26 (word x)))"
    by (simp_all add: ins)
qed

text \<open>
  With the three register fields in range, the tally performs all its accesses inside
  the table, and changes the table only.
\<close>

lemma addReadWrite_total:
  assumes wf: "wf_reg (reg s)"
    and rs: "0 \<le> rs ins \<and> rs ins < 32" and rt: "0 \<le> rt ins \<and> rt ins < 32"
    and rd: "0 \<le> rd ins \<and> rd ins < 32"
  shows "\<exists>s'. addReadWrite s ins = Some s' \<and> wf_reg (reg s') \<and> s' = s\<lparr>reg := reg s'\<rparr>"
  using assms by (cases "type ins") (simp_all add: addReadWrite_def reg_add_Some)

text \<open>
  Claim C9: for every R-type instruction (opcode 0x00) with function code 0x08
  (\<^verbatim>\<open>jr\<close>), the register tally has the net effect of one read of \<^verbatim>\<open>rs\<close> and nothing
  else: no write of \<^verbatim>\<open>rd\<close>, no read of \<^verbatim>\<open>rt\<close>, every other counter and field unchanged.
\<close>

theorem jr_tally:
  assumes "wf_Stats s" and "getStat_decode x = Some ins"
    and "op ins = 0x00" and "funct ins = 0x08"
  shows "\<exists>s'. addReadWrite s ins = Some s' \<and> wf_Stats s' \<and> s' = s\<lparr>reg := reg s'\<rparr> \<and>
           (\<forall>m<32. \<forall>c<2. reg s' ! m ! c =
              reg s ! m ! c + (if m = nat (rs ins) \<and> c = 0 then 1 else 0))"
proof -
  note f = decode_fields [OF assms(2)]
  have wf: "wf_reg (reg s)" using assms(1) by (simp add: wf_Stats_def)
  have t: "type ins = Type_r" using f(5) assms(3) by (simp add: getOp_def)
  have "addReadWrite s ins = Some (s\<lparr>reg :=
          bump_cell (bump_cell (bump_cell (bump_cell (bump_cell (reg s)
            (nat (rd ins)) 1 1) (nat (rs ins)) 0 1) (nat (rt ins)) 0 1)
            (nat (rd ins)) 1 (- 1)) (nat (rt ins)) 0 (- 1)\<rparr>)"
    using wf f(1-3) assms(4) by (simp add: addReadWrite_def t reg_add_Some)
  moreover have "nat (rs ins) < 32" "nat (rt ins) < 32" "nat (rd ins) < 32"
    using f(1-3) by linarith+
  ultimately show ?thesis
    using wf by (simp add: wf_Stats_def nth_bump)
qed

theorem jr_tally_witness:
  "wf_Stats zero_Stats
   \<and> getStat_decode \<lparr>addr = 0x00400000, word = 0x03e00008, op = 0, rs = 0, rt = 0, rd = 0,
         shamt = 0, funct = 0, imm = 0, jAddr = 0, type = Type_i\<rparr>
       = Some \<lparr>addr = 0x00400000, word = 0x03e00008, op = 0, rs = 31, rt = 0, rd = 0,
           shamt = 0, funct = 8, imm = 8, jAddr = 0x3e00008, type = Type_r\<rparr>
   \<and> (\<exists>s'. addReadWrite zero_Stats
               \<lparr>addr = 0x00400000, word = 0x03e00008, op = 0, rs = 31, rt = 0, rd = 0,
                 shamt = 0, funct = 8, imm = 8, jAddr = 0x3e00008, type = Type_r\<rparr> = Some s'
          \<and> wf_Stats s'
          \<and> reg s' ! 31 ! 0 = 1 \<and> reg s' ! 31 ! 1 = 0 \<and> reg s' ! 0 ! 0 = 0 \<and> reg s' ! 0 ! 1 = 0)"
proof -
  let ?x = "\<lparr>addr = 0x00400000, word = 0x03e00008, op = 0, rs = 0, rt = 0, rd = 0,
             shamt = 0, funct = 0, imm = 0, jAddr = 0, type = Type_i\<rparr>"
  let ?i = "\<lparr>addr = 0x00400000, word = 0x03e00008, op = 0, rs = 31, rt = 0, rd = 0,
             shamt = 0, funct = 8, imm = 8, jAddr = 0x3e00008, type = Type_r\<rparr>"
  have wf: "wf_Stats zero_Stats"
    by (simp add: wf_Stats_def zero_Stats_wf)
  have d: "getStat_decode ?x = Some ?i"
    by (simp add: decode_total getOp_def)
  have z: "reg zero_Stats ! 31 ! 0 = 0" "reg zero_Stats ! 31 ! 1 = 0"
    "reg zero_Stats ! 0 ! 0 = 0" "reg zero_Stats ! 0 ! 1 = 0"
    "reg zero_Stats ! 31 ! Suc 0 = 0" "reg zero_Stats ! 0 ! Suc 0 = 0"
    by (simp_all add: zero_Stats_def)
  from jr_tally [OF wf d] obtain s' where s': "addReadWrite zero_Stats ?i = Some s'" "wf_Stats s'"
    "\<forall>m<32. \<forall>c<2. reg s' ! m ! c =
              reg zero_Stats ! m ! c + (if m = nat (rs ?i) \<and> c = 0 then 1 else 0)"
    by auto
  from s'(3) have "reg s' ! 31 ! 0 = 1" "reg s' ! 31 ! 1 = 0" "reg s' ! 0 ! 0 = 0" "reg s' ! 0 ! 1 = 0"
    by (simp_all add: z)
  with wf d s'(1,2) show ?thesis by blast
qed

text \<open>
  Claim C10: for every decoded instruction the fields \<^verbatim>\<open>rs\<close>, \<^verbatim>\<open>rt\<close> and \<^verbatim>\<open>rd\<close> are
  5-bit values, so they lie in 0..31, and the register tally makes every access to
  the 32-entry table in bounds, the access to row 31 for \<^verbatim>\<open>jal\<close> included: the tally
  returns a table of the same shape and never the out-of-bounds outcome.
\<close>

theorem reg_access_in_bounds:
  assumes "wf_Stats s"
  shows "\<exists>ins s'. getStat_decode x = Some ins
           \<and> 0 \<le> rs ins \<and> rs ins \<le> 31 \<and> 0 \<le> rt ins \<and> rt ins \<le> 31
           \<and> 0 \<le> rd ins \<and> rd ins \<le> 31
           \<and> addReadWrite s ins = Some s' \<and> wf_Stats s'"
proof -
  obtain ins where ins: "getStat_decode x = Some ins"
    by (simp add: decode_total)
  note f = decode_fields [OF ins]
  from addReadWrite_total [OF _ f(1-3), of s] assms
  obtain s' where "addReadWrite s ins = Some s'" "wf_reg (reg s')"
    by (auto simp: wf_Stats_def)
  with ins f(1-3) show ?thesis
    by (auto simp: wf_Stats_def)
qed

theorem reg_access_in_bounds_witness:
  "wf_Stats zero_Stats
   \<and> (\<exists>ins s'. getStat_decode \<lparr>addr = 0x00400000, word = 0xffffffffffffffff, op = 0, rs = 0,
                    rt = 0, rd = 0, shamt = 0, funct = 0, imm = 0, jAddr = 0, type = Type_i\<rparr>
                  = Some ins
          \<and> 0 \<le> rs ins \<and> rs ins \<le> 31 \<and> 0 \<le> rt ins \<and> rt ins \<le> 31
          \<and> 0 \<le> rd ins \<and> rd ins \<le> 31
          \<and> addReadWrite zero_Stats ins = Some s' \<and> wf_Stats s')"
proof -
  have wf: "wf_Stats zero_Stats"
    by (simp add: wf_Stats_def zero_Stats_wf)
  from reg_access_in_bounds [OF wf] wf show ?thesis
    by blast
qed

text \<open>
  The net effect of the \<^verbatim>\<open>default\<close> branch on any instruction with opcode 0x03: one
  more write of register 31, one write less of \<^verbatim>\<open>rt\<close>, one read less of \<^verbatim>\<open>rs\<close>.
\<close>

lemma jal_tally_net:
  assumes "wf_Stats s" and "getStat_decode x = Some ins" and "op ins = 0x03"
  shows "\<exists>s'. addReadWrite s ins = Some s' \<and> wf_Stats s' \<and> s' = s\<lparr>reg := reg s'\<rparr> \<and>
           (\<forall>m<32. \<forall>c<2. reg s' ! m ! c =
              reg s ! m ! c + (if m = 31 \<and> c = 1 then 1 else 0)
                - (if m = nat (rt ins) \<and> c = 1 then 1 else 0)
                - (if m = nat (rs ins) \<and> c = 0 then 1 else 0))"
proof -
  note f = decode_fields [OF assms(2)]
  have wf: "wf_reg (reg s)" using assms(1) by (simp add: wf_Stats_def)
  have t: "type ins = Type_j" using f(5) assms(3) by (simp add: getOp_def)
  have "addReadWrite s ins = Some (s\<lparr>reg :=
          bump_cell (bump_cell (bump_cell (reg s)
            (nat (rt ins)) 1 (- 1)) (nat (rs ins)) 0 (- 1)) 31 1 1\<rparr>)"
    using wf f(1-3) assms(3) by (simp add: addReadWrite_def t reg_add_Some)
  moreover have "nat (rs ins) < 32" "nat (rt ins) < 32"
    using f(1-3) by linarith+
  ultimately show ?thesis
    using wf by (simp add: wf_Stats_def nth_bump)
qed

text \<open>
  Claim C1 says that an instruction with opcode 0x03 (\<^verbatim>\<open>jal\<close>) contributes one write to
  register 31 and nothing else. The \<^verbatim>\<open>default\<close> branch of \<^verbatim>\<open>addReadWrite\<close> also takes one
  away from the write counter of \<^verbatim>\<open>rt\<close> and from the read counter of \<^verbatim>\<open>rs\<close>, which this
  branch never raised. On the trace of the single record \<^verbatim>\<open>00400000 0c100000\<close>
  (\<^verbatim>\<open>jal 0x00400000\<close>, whose target bits put 16 in the \<^verbatim>\<open>rt\<close> field and 0 in the \<^verbatim>\<open>rs\<close>
  field) the table ends with -1 reads of register 0 and -1 writes of register 16.
\<close>

theorem jal_tally_at_0c100000:
  "getStat [\<lparr>addr = 0x00400000, word = 0x0c100000, op = 0, rs = 0, rt = 0, rd = 0,
             shamt = 0, funct = 0, imm = 0, jAddr = 0, type = Type_i\<rparr>] 1
     = Some (zero_Stats\<lparr>insts := 1, jType := 1,
               reg := (replicate 32 [0, 0])[16 := [0, - 1], 0 := [- 1, 0], 31 := [0, 1]]\<rparr>)"
  by (simp add: getStat_def getStat_body_def decode_total getOp_def addType_def addToLoad_def
      addArith_def addReadWrite_def reg_add_def zero_Stats_def replicate_2_0)

section \<open>Properties of the statistics pass\<close>

lemma addType_reg [simp]: "reg (addType s t) = reg s"
  by (cases t) (simp_all add: addType_def)

lemma addToLoad_reg [simp]: "reg (addToLoad s opc) = reg s"
  by (simp add: addToLoad_def)

lemma addArith_reg [simp]: "reg (addArith s opc fn) = reg s"
  by (simp add: addArith_def)

lemma addBranchCount_reg [simp]: "reg (addBranchCount s p c opc) = reg s"
  by (simp add: addBranchCount_def Let_def)

lemma addType_sum:
  "rType (addType s t) + iType (addType s t) + jType (addType s t) = rType s + iType s + jType s + 1"
  and addType_insts [simp]: "insts (addType s t) = insts s"
  by (cases t; simp add: addType_def)+

lemma addToLoad_types [simp]:
  "insts (addToLoad s opc) = insts s" "rType (addToLoad s opc) = rType s"
  "iType (addToLoad s opc) = iType s" "jType (addToLoad s opc) = jType s"
  by (simp_all add: addToLoad_def)

lemma addArith_types [simp]:
  "insts (addArith s opc fn) = insts s" "rType (addArith s opc fn) = rType s"
  "iType (addArith s opc fn) = iType s" "jType (addArith s opc fn) = jType s"
  by (simp_all add: addArith_def)

lemma addBranchCount_types [simp]:
  "insts (addBranchCount s p c opc) = insts s" "rType (addBranchCount s p c opc) = rType s"
  "iType (addBranchCount s p c opc) = iType s" "jType (addBranchCount s p c opc) = jType s"
  by (simp_all add: addBranchCount_def Let_def)

text \<open>
  One iteration never fails on a table of the right shape; \<open>s5\<close> is the state before the
  branch analysis of that iteration.
\<close>

lemma getStat_body_Some:
  assumes wf: "wf_reg (reg s)"
  shows "\<exists>ins s5. getStat_decode x = Some ins
           \<and> addReadWrite (addArith (addToLoad (addType (s\<lparr>insts := insts s + 1\<rparr>) (type ins))
                 (op ins)) (op ins) (funct ins)) ins = Some s5
           \<and> wf_reg (reg s5)
           \<and> insts s5 = insts s + 1
           \<and> rType s5 + iType s5 + jType s5 = rType s + iType s + jType s + 1
           \<and> fwdTaken s5 = fwdTaken s \<and> bkwTaken s5 = bkwTaken s \<and> notTaken s5 = notTaken s
           \<and> getStat_body s prev x =
               Some (case prev of None \<Rightarrow> s5
                     | Some p \<Rightarrow> addBranchCount s5 (addr p) (addr ins) (op p), Some ins)"
proof -
  obtain ins where ins: "getStat_decode x = Some ins"
    by (simp add: decode_total)
  note f = decode_fields [OF ins]
  let ?s4 = "addArith (addToLoad (addType (s\<lparr>insts := insts s + 1\<rparr>) (type ins))
                 (op ins)) (op ins) (funct ins)"
  have "wf_reg (reg ?s4)" using wf by simp
  from addReadWrite_total [OF this f(1-3)]
  obtain s5 where s5: "addReadWrite ?s4 ins = Some s5" "wf_reg (reg s5)" "s5 = ?s4\<lparr>reg := reg s5\<rparr>"
    by blast
  have "insts s5 = insts ?s4" "rType s5 = rType ?s4" "iType s5 = iType ?s4" "jType s5 = jType ?s4"
    "fwdTaken s5 = fwdTaken ?s4" "bkwTaken s5 = bkwTaken ?s4" "notTaken s5 = notTaken ?s4"
    by (subst s5(3), simp)+
  moreover have "fwdTaken ?s4 = fwdTaken s" "bkwTaken ?s4 = bkwTaken s" "notTaken ?s4 = notTaken s"
    by (cases "type ins"; simp add: addType_def addToLoad_def addArith_def)+
  moreover have "rType ?s4 + iType ?s4 + jType ?s4 = rType s + iType s + jType s + 1"
    by (simp add: addType_sum)
  moreover have "insts ?s4 = insts s + 1" by simp
  ultimately show ?thesis
    using ins s5(1,2) by (simp add: getStat_body_def)
qed

lemma getStat_loop_append:
  "getStat_loop s prev (xs @ ys) =
     (case getStat_loop s prev xs of None \<Rightarrow> None | Some (s', p') \<Rightarrow> getStat_loop s' p' ys)"
  by (induction xs arbitrary: s prev) (auto split: option.splits)

lemma getStat_loop_inv:
  assumes "wf_reg (reg s)"
  shows "\<exists>s' p'. getStat_loop s prev xs = Some (s', p') \<and> wf_reg (reg s')
           \<and> insts s' = insts s + int (length xs)
           \<and> rType s' + iType s' + jType s' = rType s + iType s + jType s + int (length xs)"
  using assms
proof (induction xs arbitrary: s prev)
  case Nil
  then show ?case by simp
next
  case (Cons x xs)
  from getStat_body_Some [OF Cons.prems, of x prev]
  obtain ins s5 where b: "wf_reg (reg s5)" "insts s5 = insts s + 1"
    "rType s5 + iType s5 + jType s5 = rType s + iType s + jType s + 1"
    "getStat_body s prev x =
       Some (case prev of None \<Rightarrow> s5 | Some p \<Rightarrow> addBranchCount s5 (addr p) (addr ins) (op p), Some ins)"
    by blast
  let ?s6 = "case prev of None \<Rightarrow> s5 | Some p \<Rightarrow> addBranchCount s5 (addr p) (addr ins) (op p)"
  have s6: "wf_reg (reg ?s6)" "insts ?s6 = insts s5"
    "rType ?s6 = rType s5" "iType ?s6 = iType s5" "jType ?s6 = jType s5"
    using b(1) by (cases prev; simp)+
  from Cons.IH [OF s6(1), of "Some ins"]
  obtain s' p' where r: "getStat_loop ?s6 (Some ins) xs = Some (s', p')" "wf_reg (reg s')"
    "insts s' = insts ?s6 + int (length xs)"
    "rType s' + iType s' + jType s' = rType ?s6 + iType ?s6 + jType ?s6 + int (length xs)"
    by blast
  show ?case
    using b r s6 by simp
qed

lemma getStat_Some:
  assumes "count \<le> int (length list)"
  shows "\<exists>s. getStat list count = Some s \<and> wf_reg (reg s)
           \<and> insts s = int (length (take (nat count) list))
           \<and> rType s + iType s + jType s = int (length (take (nat count) list))"
proof -
  from getStat_loop_inv [OF zero_Stats_wf, of None "take (nat count) list"]
  obtain s p where "getStat_loop zero_Stats None (take (nat count) list) = Some (s, p)"
    "wf_reg (reg s)"
    "insts s = insts zero_Stats + int (length (take (nat count) list))"
    "rType s + iType s + jType s =
       rType zero_Stats + iType zero_Stats + jType zero_Stats + int (length (take (nat count) list))"
    by blast
  then show ?thesis
    using assms by (simp add: getStat_def zero_Stats_def)
qed

text \<open>
  Claim C6: after \<^verbatim>\<open>getStat\<close> has folded any finite sequence of instructions, the
  total count is the sum of the three format counts,
  \<^verbatim>\<open>insts == rType + iType + jType\<close> (and it is the number of instructions folded).
\<close>

theorem getStat_type_sum:
  assumes "count \<le> int (length list)"
  shows "\<exists>s. getStat list count = Some s
           \<and> insts s = rType s + iType s + jType s
           \<and> insts s = max 0 count"
proof -
  from getStat_Some [OF assms] obtain s where
    "getStat list count = Some s" "insts s = int (length (take (nat count) list))"
    "rType s + iType s + jType s = int (length (take (nat count) list))"
    by blast
  then show ?thesis
    using assms by (auto simp: min_def max_def)
qed

theorem getStat_type_sum_witness:
  "(2::int) \<le> int (length
      [\<lparr>addr = 0x00400000, word = 0x0c100000, op = 0, rs = 0, rt = 0, rd = 0,
         shamt = 0, funct = 0, imm = 0, jAddr = 0, type = Type_i\<rparr>,
       \<lparr>addr = 0x00400004, word = 0x03e00008, op = 0, rs = 0, rt = 0, rd = 0,
         shamt = 0, funct = 0, imm = 0, jAddr = 0, type = Type_i\<rparr>])
   \<and> (\<exists>s. getStat
      [\<lparr>addr = 0x00400000, word = 0x0c100000, op = 0, rs = 0, rt = 0, rd = 0,
         shamt = 0, funct = 0, imm = 0, jAddr = 0, type = Type_i\<rparr>,
       \<lparr>addr = 0x00400004, word = 0x03e00008, op = 0, rs = 0, rt = 0, rd = 0,
         shamt = 0, funct = 0, imm = 0, jAddr = 0, type = Type_i\<rparr>] 2 = Some s
        \<and> insts s = rType s + iType s + jType s \<and> insts s = 2)"
  using getStat_type_sum [of 2
      "[\<lparr>addr = 0x00400000, word = 0x0c100000, op = 0, rs = 0, rt = 0, rd = 0,
         shamt = 0, funct = 0, imm = 0, jAddr = 0, type = Type_i\<rparr>,
       \<lparr>addr = 0x00400004, word = 0x03e00008, op = 0, rs = 0, rt = 0, rd = 0,
         shamt = 0, funct = 0, imm = 0, jAddr = 0, type = Type_i\<rparr>]"]
  by simp

section \<open>Properties of the branch analysis\<close>

lemma getStat_loop_snoc_prev:
  assumes "wf_reg (reg s)"
  shows "\<exists>s' ins. getStat_loop s prev (xs @ [x]) = Some (s', Some ins) \<and> getStat_decode x = Some ins"
proof -
  from getStat_loop_inv [OF assms, of prev xs]
  obtain s1 p1 where 1: "getStat_loop s prev xs = Some (s1, p1)" "wf_reg (reg s1)"
    by blast
  from getStat_body_Some [OF 1(2), of x p1]
  obtain ins s5 where "getStat_decode x = Some ins"
    "getStat_body s1 p1 x =
       Some (case p1 of None \<Rightarrow> s5 | Some p \<Rightarrow> addBranchCount s5 (addr p) (addr ins) (op p), Some ins)"
    by blast
  then show ?thesis
    using 1 by (simp add: getStat_loop_append)
qed

lemma addBranchCount_counters:
  "(fwdTaken (addBranchCount s p c opc), bkwTaken (addBranchCount s p c opc),
    notTaken (addBranchCount s p c opc)) =
   (if 4 < sint (c - p) then (fwdTaken s + 1, bkwTaken s, notTaken s)
    else if sint (c - p) < 0 then (fwdTaken s, bkwTaken s + 1, notTaken s)
    else if opc = 0x04 \<or> opc = 0x05 then (fwdTaken s, bkwTaken s, notTaken s + 1)
    else (fwdTaken s, bkwTaken s, notTaken s))"
  by (simp add: addBranchCount_def Let_def word_sless_alt)

text \<open>
  Claim C4: for every pair of consecutive instructions of a trace, at the indices
  \<open>n\<close> and \<open>n + 1\<close>, let \<open>diff\<close> be the current address minus the previous address, as the
  signed 64-bit difference that \<^verbatim>\<open>long diff\<close> holds. Folding the second instruction of the
  pair adds one to the forward-taken counter if \<open>diff > 4\<close>; else one to the
  backward-taken counter if \<open>diff < 0\<close>; else one to the not-taken counter if the
  opcode of the previous instruction is 0x04 or 0x05; and otherwise changes none of the
  three counters. The first instruction of a trace contributes to none of them.
\<close>

theorem branch_classification:
  assumes "Suc n < length list"
  shows "\<exists>s0 s1 s2.
           getStat list 1 = Some s0 \<and> fwdTaken s0 = 0 \<and> bkwTaken s0 = 0 \<and> notTaken s0 = 0
         \<and> getStat list (int n + 1) = Some s1 \<and> getStat list (int n + 2) = Some s2
         \<and> (fwdTaken s2, bkwTaken s2, notTaken s2) =
             (let diff = sint (addr (list ! Suc n) - addr (list ! n));
                  prevOp = uint (take_bit 6 (drop_bit 26 (word (list ! n))))
              in if 4 < diff then (fwdTaken s1 + 1, bkwTaken s1, notTaken s1)
                 else if diff < 0 then (fwdTaken s1, bkwTaken s1 + 1, notTaken s1)
                 else if prevOp = 0x04 \<or> prevOp = 0x05 then (fwdTaken s1, bkwTaken s1, notTaken s1 + 1)
                 else (fwdTaken s1, bkwTaken s1, notTaken s1))"
proof -
  \<comment> \<open>the first instruction\<close>
  have t1: "take (Suc 0) list = [list ! 0]"
    using assms by (cases list) simp_all
  from getStat_body_Some [OF zero_Stats_wf, of "list ! 0" None]
  obtain i0 s0 where s0: "fwdTaken s0 = fwdTaken zero_Stats" "bkwTaken s0 = bkwTaken zero_Stats"
    "notTaken s0 = notTaken zero_Stats"
    "getStat_body zero_Stats None (list ! 0) = Some (s0, Some i0)"
    by auto
  have g0: "getStat list 1 = Some s0"
    using assms s0(4) by (simp add: getStat_def t1)
  have z0: "fwdTaken s0 = 0" "bkwTaken s0 = 0" "notTaken s0 = 0"
    using s0(1-3) by (simp_all add: zero_Stats_def)
  \<comment> \<open>the instructions up to index \<open>n\<close>, then the one at index \<open>n + 1\<close>\<close>
  have tn: "take (nat (int n + 1)) list = take n list @ [list ! n]"
    using assms by (simp add: nat_add_distrib take_Suc_conv_app_nth)
  have tn2: "take (nat (int n + 2)) list = (take n list @ [list ! n]) @ [list ! Suc n]"
    using assms by (simp add: nat_add_distrib take_Suc_conv_app_nth)
  from getStat_loop_snoc_prev [OF zero_Stats_wf, of None "take n list" "list ! n"]
  obtain s1 p where s1: "getStat_loop zero_Stats None (take n list @ [list ! n]) = Some (s1, Some p)"
    "getStat_decode (list ! n) = Some p"
    by blast
  from getStat_loop_inv [OF zero_Stats_wf, of None "take n list @ [list ! n]"] s1(1)
  have wf1: "wf_reg (reg s1)" by simp
  from getStat_body_Some [OF wf1, of "list ! Suc n" "Some p"]
  obtain c s5 where s5: "getStat_decode (list ! Suc n) = Some c"
    "fwdTaken s5 = fwdTaken s1" "bkwTaken s5 = bkwTaken s1" "notTaken s5 = notTaken s1"
    "getStat_body s1 (Some p) (list ! Suc n) =
       Some (addBranchCount s5 (addr p) (addr c) (op p), Some c)"
    by auto
  let ?s2 = "addBranchCount s5 (addr p) (addr c) (op p)"
  have g1: "getStat list (int n + 1) = Some s1"
    using assms s1(1) by (simp add: getStat_def tn del: take_Suc_conv_app_nth)
  have l2: "getStat_loop zero_Stats None ((take n list @ [list ! n]) @ [list ! Suc n]) =
              Some (?s2, Some c)"
    by (subst getStat_loop_append) (simp add: s1(1) s5(5))
  have g2: "getStat list (int n + 2) = Some ?s2"
    unfolding getStat_def tn2 l2 using assms by simp
  have "(fwdTaken ?s2, bkwTaken ?s2, notTaken ?s2) =
          (let diff = sint (addr (list ! Suc n) - addr (list ! n));
               prevOp = uint (take_bit 6 (drop_bit 26 (word (list ! n))))
           in if 4 < diff then (fwdTaken s1 + 1, bkwTaken s1, notTaken s1)
              else if diff < 0 then (fwdTaken s1, bkwTaken s1 + 1, notTaken s1)
              else if prevOp = 0x04 \<or> prevOp = 0x05 then (fwdTaken s1, bkwTaken s1, notTaken s1 + 1)
              else (fwdTaken s1, bkwTaken s1, notTaken s1))"
    unfolding addBranchCount_counters Let_def
    by (simp only: s5(2-4) decode_fields(6,8) [OF s1(2)] decode_fields(6) [OF s5(1)])
  with g0 z0 g1 g2 show ?thesis by blast
qed

text \<open>
  The trace of section 8 of the specification: a \<^verbatim>\<open>beq\<close> at 0x1000, a \<^verbatim>\<open>beq\<close> at 0x1004,
  then an instruction at 0x1010. The second instruction is a not-taken outcome.
\<close>

theorem branch_classification_witness:
  "Suc 0 < length
      [\<lparr>addr = 0x1000, word = 0x10000000, op = 0, rs = 0, rt = 0, rd = 0,
         shamt = 0, funct = 0, imm = 0, jAddr = 0, type = Type_i\<rparr>,
       \<lparr>addr = 0x1004, word = 0x10000000, op = 0, rs = 0, rt = 0, rd = 0,
         shamt = 0, funct = 0, imm = 0, jAddr = 0, type = Type_i\<rparr>,
       \<lparr>addr = 0x1010, word = 0x00000020, op = 0, rs = 0, rt = 0, rd = 0,
         shamt = 0, funct = 0, imm = 0, jAddr = 0, type = Type_i\<rparr>]
   \<and> (\<exists>s0 s1 s2.
         getStat
           [\<lparr>addr = 0x1000, word = 0x10000000, op = 0, rs = 0, rt = 0, rd = 0,
              shamt = 0, funct = 0, imm = 0, jAddr = 0, type = Type_i\<rparr>,
            \<lparr>addr = 0x1004, word = 0x10000000, op = 0, rs = 0, rt = 0, rd = 0,
              shamt = 0, funct = 0, imm = 0, jAddr = 0, type = Type_i\<rparr>,
            \<lparr>addr = 0x1010, word = 0x00000020, op = 0, rs = 0, rt = 0, rd = 0,
              shamt = 0, funct = 0, imm = 0, jAddr = 0, type = Type_i\<rparr>] 1 = Some s0
       \<and> fwdTaken s0 = 0 \<and> bkwTaken s0 = 0 \<and> notTaken s0 = 0
       \<and> getStat
           [\<lparr>addr = 0x1000, word = 0x10000000, op = 0, rs = 0, rt = 0, rd = 0,
              shamt = 0, funct = 0, imm = 0, jAddr = 0, type = Type_i\<rparr>,
            \<lparr>addr = 0x1004, word = 0x10000000, op = 0, rs = 0, rt = 0, rd = 0,
              shamt = 0, funct = 0, imm = 0, jAddr = 0, type = Type_i\<rparr>,
            \<lparr>addr = 0x1010, word = 0x00000020, op = 0, rs = 0, rt = 0, rd = 0,
              shamt = 0, funct = 0, imm = 0, jAddr = 0, type = Type_i\<rparr>] 1 = Some s1
       \<and> getStat
           [\<lparr>addr = 0x1000, word = 0x10000000, op = 0, rs = 0, rt = 0, rd = 0,
              shamt = 0, funct = 0, imm = 0, jAddr = 0, type = Type_i\<rparr>,
            \<lparr>addr = 0x1004, word = 0x10000000, op = 0, rs = 0, rt = 0, rd = 0,
              shamt = 0, funct = 0, imm = 0, jAddr = 0, type = Type_i\<rparr>,
            \<lparr>addr = 0x1010, word = 0x00000020, op = 0, rs = 0, rt = 0, rd = 0,
              shamt = 0, funct = 0, imm = 0, jAddr = 0, type = Type_i\<rparr>] 2 = Some s2
       \<and> (fwdTaken s2, bkwTaken s2, notTaken s2) = (fwdTaken s1, bkwTaken s1, notTaken s1 + 1))"
  using branch_classification [of 0
      "[\<lparr>addr = 0x1000, word = 0x10000000, op = 0, rs = 0, rt = 0, rd = 0,
         shamt = 0, funct = 0, imm = 0, jAddr = 0, type = Type_i\<rparr>,
       \<lparr>addr = 0x1004, word = 0x10000000, op = 0, rs = 0, rt = 0, rd = 0,
         shamt = 0, funct = 0, imm = 0, jAddr = 0, type = Type_i\<rparr>,
       \<lparr>addr = 0x1010, word = 0x00000020, op = 0, rs = 0, rt = 0, rd = 0,
         shamt = 0, funct = 0, imm = 0, jAddr = 0, type = Type_i\<rparr>]"]
  by simp

section \<open>Properties of the report\<close>

text \<open>
  Claim C5: when the analysed trace has no instruction, the total count is 0 and each
  of the six percentage lines of \<^verbatim>\<open>printStats\<close> divides its counter by that total,
  with no test of the divisor: all six are divisions by zero.
\<close>

theorem empty_trace_divides_by_zero:
  assumes "count \<le> 0"
  shows "\<exists>s. getStat list count = Some s \<and> insts s = 0
           \<and> take 6 (drop 4 (printStats s)) =
               [Percent ''fwd-taken'' None, Percent ''bkw-taken'' None,
                Percent ''not-taken'' None, Percent ''loads'' None,
                Percent ''stores'' None, Percent ''arith'' None]"
  using assms by (simp add: getStat_def printStats_def percentage_def zero_Stats_def)

text \<open>The run of \<^verbatim>\<open>main\<close> on an empty \<^verbatim>\<open>trace.txt\<close>.\<close>

theorem empty_trace_divides_by_zero_witness:
  "(0::int) \<le> 0
   \<and> main 1 [] [] = Finished (printStats zero_Stats)
   \<and> (\<exists>s. getStat [] 0 = Some s \<and> insts s = 0
          \<and> take 6 (drop 4 (printStats s)) =
              [Percent ''fwd-taken'' None, Percent ''bkw-taken'' None,
               Percent ''not-taken'' None, Percent ''loads'' None,
               Percent ''stores'' None, Percent ''arith'' None])"
proof -
  have "main 1 [] [] = Finished (printStats zero_Stats)"
    by (simp add: main_def getStat_def)
  with empty_trace_divides_by_zero [of 0 "[]"] show ?thesis
    by simp
qed

section \<open>Properties of the trace reader\<close>

text \<open>
  On a trace that holds only complete records, and no more of them than the array has
  entries, the loop of \<^verbatim>\<open>main\<close> ends after one more call of \<^verbatim>\<open>fscanf\<close> than there are
  records, with \<^verbatim>\<open>counter\<close> raised by their number.
\<close>

lemma read_loop_records:
  assumes "0 \<le> counter" and "counter + int (length recs) \<le> int (length list)"
    and "int (length list) < 2147483647"
  shows "\<exists>list'. read_loop (Suc (length recs)) (tokens_of recs) list counter
                    = Finished (list', counter + int (length recs))
                \<and> length list' = length list"
  using assms
proof (induction recs arbitrary: list counter)
  case Nil
  then show ?case by (simp add: EOF_def)
next
  case (Cons p recs)
  obtain a w where p: "p = (a, w)" by (cases p)
  let ?l1 = "list[nat counter := (list ! nat counter)\<lparr>addr := a\<rparr>]"
  let ?l2 = "?l1[nat counter := (?l1 ! nat counter)\<lparr>word := w\<rparr>]"
  have len: "length ?l2 = length list" by simp
  from Cons.prems have c: "0 \<le> counter + 1"
    "counter + 1 + int (length recs) \<le> int (length ?l2)" "int (length ?l2) < 2147483647"
    by simp_all
  from Cons.IH [OF c] obtain list' where
    r: "read_loop (Suc (length recs)) (tokens_of recs) ?l2 (counter + 1)
          = Finished (list', counter + 1 + int (length recs))"
       "length list' = length list"
    by auto
  have step: "read_loop (Suc (Suc (length recs))) (tokens_of (p # recs)) list counter
          = read_loop (Suc (length recs)) (tokens_of recs) ?l2 (counter + 1)"
    using Cons.prems
    by (subst read_loop.simps) (simp add: p EOF_def Let_def del: read_loop.simps)
  have n: "length (p # recs) = Suc (length recs)" by simp
  show ?case
    unfolding n step using r by (simp add: algebra_simps del: read_loop.simps)
qed

text \<open>A stream whose next token does not match never lets the loop end.\<close>

lemma read_loop_Junk: "read_loop n (Junk # ts) list counter \<noteq> Finished r"
  by (induction n arbitrary: counter) (auto simp: EOF_def)

lemma read_loop_tokens_Junk:
  "read_loop n (tokens_of recs @ Junk # ts) list counter \<noteq> Finished r"
proof (induction n arbitrary: recs list counter)
  case 0
  then show ?case by simp
next
  case (Suc n)
  show ?case
  proof (cases recs)
    case Nil
    then show ?thesis by (simp add: read_loop_Junk del: read_loop.simps)
  next
    case (Cons p recs')
    obtain a w where p: "p = (a, w)" by (cases p)
    show ?thesis
      using Suc.IH by (simp add: Cons p EOF_def Let_def)
  qed
qed

text \<open>
  Claim C3 says that on a trace whose first \<open>k\<close> records parse and whose next token
  does not, the program stops reading at the failure and analyses exactly the first
  \<open>k\<close> records. The loop of \<^verbatim>\<open>main\<close> tests the result of \<^verbatim>\<open>fscanf\<close> against \<^verbatim>\<open>EOF\<close> only;
  at a token that does not match, \<^verbatim>\<open>fscanf\<close> returns 0, not \<^verbatim>\<open>EOF\<close>, and leaves the token
  in the stream, so \<^verbatim>\<open>counter\<close> is raised and the same token is scanned again without
  end. On every such trace, whatever the number \<open>k\<close> of records before the token and
  whatever follows it, \<^verbatim>\<open>main\<close> never reaches \<^verbatim>\<open>getStat\<close>: no run finishes with a report.
\<close>

theorem malformed_record_never_finishes:
  "main fuel (tokens_of recs @ Junk # ts) list \<noteq> Finished out"
  using read_loop_tokens_Junk [of fuel recs ts list 0]
  by (auto simp: main_def split: outcome.splits option.splits)

end
